theory Spec2Isabelle
  imports Complex_Main
begin

section \<open>Numbers and vectors\<close>

text \<open>
  JavaScript numbers are modelled as \<^typ>\<open>real\<close>. NaN and the infinities are outside
  the model, and so is the rounding of IEEE doubles, with one exception: the product
  \<open>duration * fps\<close> of the capture hook is rounded to a double as the engine does, since
  the loop compares its integer frame counter with that value. \<open>Math.random()\<close> is not a
  function of the state, so the one random draw of the path generator (\<open>baseAngle\<close>) is a
  parameter.

  \<open>THREE.Vector3\<close> is a record of three coordinates. The few operations of three.js the
  rig calls are written out from their definitions in three.js:
  \<open>lerpVectors(v1, v2, alpha)\<close> sets each coordinate to \<open>v1 + (v2 - v1) * alpha\<close>,
  \<open>MathUtils.lerp(x, y, t)\<close> is \<open>(1 - t) * x + t * y\<close>, and \<open>clone()\<close> is the identity
  on values.
\<close>

record Vector3 =
  vx :: real
  vy :: real
  vz :: real

definition Vec3 :: "real \<Rightarrow> real \<Rightarrow> real \<Rightarrow> Vector3" where
  "Vec3 a b c = \<lparr>vx = a, vy = b, vz = c\<rparr>"

definition vec_add :: "Vector3 \<Rightarrow> Vector3 \<Rightarrow> Vector3" where
  "vec_add u v = Vec3 (vx u + vx v) (vy u + vy v) (vz u + vz v)"

definition divideScalar :: "Vector3 \<Rightarrow> real \<Rightarrow> Vector3" where
  "divideScalar v s = Vec3 (vx v / s) (vy v / s) (vz v / s)"

definition lerpVectors :: "Vector3 \<Rightarrow> Vector3 \<Rightarrow> real \<Rightarrow> Vector3" where
  "lerpVectors v1 v2 alpha =
     Vec3 (vx v1 + (vx v2 - vx v1) * alpha)
          (vy v1 + (vy v2 - vy v1) * alpha)
          (vz v1 + (vz v2 - vz v1) * alpha)"

definition lerp :: "real \<Rightarrow> real \<Rightarrow> real \<Rightarrow> real" where
  "lerp a b t = (1 - t) * a + t * b"

text \<open>
  The remainder operator \<open>a % b\<close> of JavaScript truncates the quotient towards zero.
  For \<open>b = 0\<close> JavaScript yields NaN, which this model does not represent.
\<close>

definition js_rem :: "real \<Rightarrow> real \<Rightarrow> real" where
  "js_rem a b = a - b * real_of_int (if a / b < 0 then \<lceil>a / b\<rceil> else \<lfloor>a / b\<rfloor>)"

text \<open>
  Rounding of a real to the nearest IEEE binary64 value, ties to the even significand:
  the number is scaled by the unit in the last place of its binade (53 significant bits,
  least exponent \<open>-1022\<close>), rounded to an integer and scaled back. Overflow to an
  infinity, from \<open>2 ^ 1024\<close> on, is not represented.
\<close>

definition round_half_even :: "real \<Rightarrow> int" where
  "round_half_even y =
     (let f = \<lfloor>y\<rfloor> in
      if y - of_int f < 1 / 2 then f
      else if y - of_int f > 1 / 2 then f + 1
      else if even f then f else f + 1)"

definition ulp_exponent :: "real \<Rightarrow> int" where
  "ulp_exponent x = max \<lfloor>log 2 \<bar>x\<bar>\<rfloor> (- 1022) - 52"

definition pow2 :: "int \<Rightarrow> real" where
  "pow2 k = (if 0 \<le> k then 2 ^ nat k else 1 / 2 ^ nat (- k))"

definition to_double :: "real \<Rightarrow> real" where
  "to_double x =
     (if x = 0 then 0
      else let u = pow2 (ulp_exponent x)
           in u * of_int (round_half_even (x / u)))"

section \<open>Keyframes and the path generator (DynamicCameraRig)\<close>

record CameraKeyframe =
  time :: real
  position :: Vector3
  lookAt :: Vector3
  fov :: "real option"

text \<open>The value returned by \<open>generateRandomKeyframes\<close>: \<open>{ keyframes, dynamicDuration }\<close>.\<close>

record generated =
  keyframes :: "CameraKeyframe list"
  dynamicDuration :: real

text \<open>
  The props of the component that the generator reads: \<open>duration\<close> (default 20),
  \<open>assetsPositions\<close> and the optional \<open>startPosition\<close>.
\<close>

record rig_props =
  enabled :: bool
  duration :: real
  assetsPositions :: "Vector3 list"
  startPosition :: "Vector3 option"

definition generateSingleAssetAnimation ::
  "Vector3 option \<Rightarrow> Vector3 \<Rightarrow> real \<Rightarrow> CameraKeyframe list" where
  "generateSingleAssetAnimation startPos assetPos baseAngle =
     (let movementVariation = js_rem baseAngle (pi * 2) / (pi * 2);
          heightVariation = (if movementVariation > 0.5 then 1 else - 1 :: real);
          sideMovement = (if movementVariation > 0.5 then 1 else - 1 :: real);
          heightPattern = (if heightVariation > 0 then 0.5 else - 0.5 :: real)
      in
      [ \<lparr>time = 0,
         position = (case startPos of
            Some sp \<Rightarrow> sp
          | None \<Rightarrow> Vec3 (vx assetPos + sin baseAngle * 3)
                         (vy assetPos + 2)
                         (vz assetPos + cos baseAngle * 3)),
         lookAt = assetPos, fov = Some 50\<rparr>,
        \<lparr>time = 3,
         position = (case startPos of
            Some sp \<Rightarrow> lerpVectors sp
                        (Vec3 (vx assetPos + sin (baseAngle + 0.2 * sideMovement) * 3)
                              (vy assetPos + 2 + heightPattern)
                              (vz assetPos + cos (baseAngle + 0.2 * sideMovement) * 3))
                        0.5
          | None \<Rightarrow> Vec3 (vx assetPos + sin (baseAngle + 0.2 * sideMovement) * 3)
                         (vy assetPos + 2 + heightPattern)
                         (vz assetPos + cos (baseAngle + 0.2 * sideMovement) * 3)),
         lookAt = assetPos, fov = Some 45\<rparr>,
        \<lparr>time = 6,
         position = Vec3 (vx assetPos + sin (baseAngle + 0.6 * sideMovement) * 2.5)
                         (vy assetPos + 1.5 + heightPattern * 0.5)
                         (vz assetPos + cos (baseAngle + 0.6 * sideMovement) * 2.5),
         lookAt = assetPos, fov = Some 40\<rparr>,
        \<lparr>time = 9,
         position = Vec3 (vx assetPos + sin (baseAngle + 1.2 * sideMovement) * 2)
                         (vy assetPos + 1.2)
                         (vz assetPos + cos (baseAngle + 1.2 * sideMovement) * 2),
         lookAt = assetPos, fov = Some 35\<rparr>,
        \<lparr>time = 12,
         position = Vec3 (vx assetPos + sin (baseAngle + 2 * sideMovement) * 1.8)
                         (vy assetPos + 0.8)
                         (vz assetPos + cos (baseAngle + 2 * sideMovement) * 1.8),
         lookAt = assetPos, fov = Some 30\<rparr>,
        \<lparr>time = 15,
         position = Vec3 (vx assetPos + sin (baseAngle + 2.8 * sideMovement) * 2.5)
                         (vy assetPos + 1.5)
                         (vz assetPos + cos (baseAngle + 2.8 * sideMovement) * 2.5),
         lookAt = assetPos, fov = Some 40\<rparr>,
        \<lparr>time = 18,
         position = Vec3 (vx assetPos + sin (baseAngle + 3.5 * sideMovement) * 4)
                         (vy assetPos + 2.5)
                         (vz assetPos + cos (baseAngle + 3.5 * sideMovement) * 4),
         lookAt = assetPos, fov = Some 50\<rparr>,
        \<lparr>time = 20,
         position = Vec3 (vx assetPos + sin (baseAngle + 4.2 * sideMovement) * 4.5)
                         (vy assetPos + 2.5)
                         (vz assetPos + cos (baseAngle + 4.2 * sideMovement) * 4.5),
         lookAt = assetPos, fov = Some 55\<rparr> ])"

text \<open>The four fixed keyframes of the multi-asset intro (0s, 2s, 4s, 6s).\<close>

definition intro_movements :: "Vector3 option \<Rightarrow> Vector3 \<Rightarrow> real \<Rightarrow> CameraKeyframe list" where
  "intro_movements startPos center baseAngle =
     [ \<lparr>time = 0,
        position = (case startPos of
           Some sp \<Rightarrow> sp
         | None \<Rightarrow> Vec3 (vx center + sin baseAngle * 3.5)
                        (vy center + 2.5)
                        (vz center + cos baseAngle * 3.5)),
        lookAt = center, fov = Some 50\<rparr>,
       \<lparr>time = 2,
        position = (case startPos of
           Some sp \<Rightarrow> lerpVectors sp
                       (Vec3 (vx center + sin baseAngle * 3.5)
                             (vy center + 2.5)
                             (vz center + cos baseAngle * 3.5))
                       0.4
         | None \<Rightarrow> Vec3 (vx center + sin baseAngle * 3.5)
                        (vy center + 2.5)
                        (vz center + cos baseAngle * 3.5)),
        lookAt = center, fov = Some 45\<rparr>,
       \<lparr>time = 4,
        position = Vec3 (vx center + sin (baseAngle + 0.4) * 3.5)
                        (vy center + 2.5)
                        (vz center + cos (baseAngle + 0.4) * 3.5),
        lookAt = center, fov = Some 40\<rparr>,
       \<lparr>time = 6,
        position = Vec3 (vx center + sin (baseAngle + 0.8) * 3)
                        (vy center + 2)
                        (vz center + cos (baseAngle + 0.8) * 3),
        lookAt = center, fov = Some 45\<rparr> ]"

text \<open>
  One iteration of \<open>assets.forEach((asset, index) => ...)\<close>: the keyframes pushed for the
  asset at \<open>index\<close>, in push order. The transition keyframe reads \<open>assets[index + 1]\<close>
  and is pushed only when that element exists.
\<close>

definition tour_movements ::
  "Vector3 list \<Rightarrow> real \<Rightarrow> real \<Rightarrow> real \<Rightarrow> nat \<Rightarrow> CameraKeyframe list" where
  "tour_movements assets baseAngle introDuration timePerAsset index =
     (let asset = assets ! index;
          startTime = introDuration + real index * timePerAsset;
          midTime = startTime + timePerAsset * 0.5;
          endTime = startTime + timePerAsset
      in
      [ \<lparr>time = startTime,
         position = Vec3 (vx asset + sin (baseAngle + real index) * 2.5)
                         (vy asset + 1.5)
                         (vz asset + cos (baseAngle + real index) * 2.5),
         lookAt = asset, fov = Some 40\<rparr>,
        \<lparr>time = midTime,
         position = Vec3 (vx asset + sin (baseAngle + real index + 0.3) * 2)
                         (vy asset + 1)
                         (vz asset + cos (baseAngle + real index + 0.3) * 2),
         lookAt = asset, fov = Some 35\<rparr> ]
      @ (if int index < int (length assets) - 1 then
           [ \<lparr>time = endTime,
              position = Vec3 (vx asset + sin (baseAngle + real index + 0.6) * 2.2)
                              (vy asset + 1.2)
                              (vz asset + cos (baseAngle + real index + 0.6) * 2.2),
              lookAt = assets ! (index + 1), fov = Some 45\<rparr> ]
         else []))"

text \<open>
  \<open>movements.sort((a, b) => a.time - b.time)\<close> is a stable sort by \<open>time\<close>
  (\<open>Array.prototype.sort\<close> is stable); \<^const>\<open>sort_key\<close> is a stable insertion sort.
  For an empty asset list \<open>timePerAsset\<close> is a division by zero (\<open>Infinity\<close> in
  JavaScript, 0 here); it is not read then, since the loop over the assets does not run.
  The times of the tour are exact here. In doubles, two keyframes whose exact times are
  equal can differ in the last place, and the sort then orders them by that difference
  instead of keeping their push order (with three assets, the second transition comes
  after the third approach); the sequence of times is sorted either way.
\<close>

definition generateMultiAssetAnimation ::
  "Vector3 option \<Rightarrow> Vector3 \<Rightarrow> Vector3 list \<Rightarrow> real \<Rightarrow> generated" where
  "generateMultiAssetAnimation startPos center assets baseAngle =
     (let minSecondsPerAsset = 4 :: real;
          introDuration = 6 :: real;
          dynDuration = max 20 (introDuration + real (length assets) * minSecondsPerAsset);
          tourDuration = dynDuration - introDuration;
          timePerAsset = tourDuration / real (length assets);
          movements =
            intro_movements startPos center baseAngle
            @ concat (map (tour_movements assets baseAngle introDuration timePerAsset)
                          [0 ..< length assets])
            @ [ \<lparr>time = dynDuration,
                 position = Vec3 (vx center + sin (baseAngle + 6) * 5)
                                 (vy center + 3)
                                 (vz center + cos (baseAngle + 6) * 5),
                 lookAt = center, fov = Some 60\<rparr> ]
      in \<lparr>keyframes = sort_key time movements, dynamicDuration = dynDuration\<rparr>)"

definition generateRandomKeyframes :: "rig_props \<Rightarrow> real \<Rightarrow> generated" where
  "generateRandomKeyframes props baseAngle =
     (let center = (if length (assetsPositions props) > 0
                    then divideScalar (foldl vec_add (Vec3 0 0 0) (assetsPositions props))
                                      (real (length (assetsPositions props)))
                    else Vec3 0 0 0);
          assetCount = length (assetsPositions props)
      in if assetCount = 1
         then \<lparr>keyframes = generateSingleAssetAnimation (startPosition props)
                              (assetsPositions props ! 0) baseAngle,
               dynamicDuration = duration props\<rparr>
         else generateMultiAssetAnimation (startPosition props) center
                (assetsPositions props) baseAngle)"

section \<open>The camera rig: state, interpolation and the per-frame callback\<close>

text \<open>
  The camera of the scene: its position, the point it was last turned towards by
  \<open>camera.lookAt\<close>, and its field of view, present for a perspective camera only
  (the source guards every access with \<open>'fov' in camera\<close>).
\<close>

record camera =
  cam_position :: Vector3
  cam_target :: Vector3
  cam_fov :: "real option"

text \<open>The refs of the component (\<open>useRef\<close>) and the camera it drives.\<close>

record rig_state =
  animationStartTimeRef :: "real option"
  isRecordingRef :: bool
  keyframesRef :: "CameraKeyframe list"
  dynamicDurationRef :: real
  rig_camera :: camera

text \<open>The object returned by \<open>interpolateKeyframes\<close>.\<close>

record pose =
  pose_position :: Vector3
  pose_lookAt :: Vector3
  pose_fov :: real

text \<open>\<open>fov || 50\<close>: the default applies when the field is absent and when it is 0.\<close>

definition fov_or_default :: "real option \<Rightarrow> real" where
  "fov_or_default f = (case f of None \<Rightarrow> 50 | Some v \<Rightarrow> if v = 0 then 50 else v)"

text \<open>The pose returned for an edge keyframe: its position, look-at and \<open>fov || 50\<close>.\<close>

definition keyframe_pose :: "CameraKeyframe \<Rightarrow> pose" where
  "keyframe_pose k =
     \<lparr>pose_position = position k, pose_lookAt = lookAt k, pose_fov = fov_or_default (fov k)\<rparr>"

text \<open>
  The search loop \<open>for (i = 0; i < keyframes.length - 1; i++)\<close>: the first adjacent pair
  whose times enclose \<open>clampedTime\<close>, or the initial values of \<open>beforeFrame\<close> and
  \<open>afterFrame\<close> when no pair does.
\<close>

fun find_interval ::
  "CameraKeyframe list \<Rightarrow> real \<Rightarrow> CameraKeyframe \<times> CameraKeyframe
   \<Rightarrow> CameraKeyframe \<times> CameraKeyframe" where
  "find_interval (a # b # rest) clampedTime dflt =
     (if clampedTime \<ge> time a \<and> clampedTime \<le> time b then (a, b)
      else find_interval (b # rest) clampedTime dflt)"
| "find_interval _ clampedTime dflt = dflt"

text \<open>The two easing curves: hermite while recording, quintic in preview.\<close>

definition ease :: "bool \<Rightarrow> real \<Rightarrow> real" where
  "ease recording t =
     (if recording then t * t * (3.0 - 2.0 * t)
      else t * t * t * (t * (t * 6 - 15) + 10))"

definition interpolateKeyframes :: "rig_state \<Rightarrow> real \<Rightarrow> pose" where
  "interpolateKeyframes st currentTime =
     (let kfs = keyframesRef st in
      if length kfs = 0 then
        \<lparr>pose_position = Vec3 0 2 5, pose_lookAt = Vec3 0 0 0, pose_fov = 50\<rparr>
      else
        let clampedTime = max 0 (min currentTime (dynamicDurationRef st)) in
        if clampedTime \<le> time (hd kfs) then keyframe_pose (hd kfs)
        else if clampedTime \<ge> time (last kfs) then keyframe_pose (last kfs)
        else
          let (beforeFrame, afterFrame) = find_interval kfs clampedTime (hd kfs, last kfs);
              timeDiff = time afterFrame - time beforeFrame;
              t = (if timeDiff > 0 then (clampedTime - time beforeFrame) / timeDiff else 0);
              easedT = ease (isRecordingRef st) t
          in \<lparr>pose_position = lerpVectors (position beforeFrame) (position afterFrame) easedT,
              pose_lookAt = lerpVectors (lookAt beforeFrame) (lookAt afterFrame) easedT,
              pose_fov = lerp (fov_or_default (fov beforeFrame))
                              (fov_or_default (fov afterFrame)) easedT\<rparr>)"

text \<open>
  The state of a freshly mounted rig (the initial values of its refs) around a given
  camera.
\<close>

definition initial_rig_with :: "camera \<Rightarrow> rig_props \<Rightarrow> rig_state" where
  "initial_rig_with cam props =
     \<lparr>animationStartTimeRef = None, isRecordingRef = False, keyframesRef = [],
      dynamicDurationRef = duration props, rig_camera = cam\<rparr>"

text \<open>The imperative handle of the rig.\<close>

definition startRecordingAnimation :: "rig_props \<Rightarrow> real \<Rightarrow> rig_state \<Rightarrow> rig_state" where
  "startRecordingAnimation props baseAngle st =
     (let result = generateRandomKeyframes props baseAngle
      in st\<lparr>isRecordingRef := True, animationStartTimeRef := None,
             keyframesRef := keyframes result,
             dynamicDurationRef := dynamicDuration result\<rparr>)"

definition stopRecordingAnimation :: "rig_state \<Rightarrow> rig_state" where
  "stopRecordingAnimation st = st\<lparr>isRecordingRef := False, animationStartTimeRef := None\<rparr>"

definition resetAnimation :: "rig_props \<Rightarrow> rig_state \<Rightarrow> rig_state" where
  "resetAnimation props st =
     st\<lparr>isRecordingRef := False, animationStartTimeRef := None,
        keyframesRef := [], dynamicDurationRef := duration props,
        rig_camera := (rig_camera st)
          \<lparr>cam_position := Vec3 0 2 5, cam_target := Vec3 0 0 0,
           cam_fov := (case cam_fov (rig_camera st) of None \<Rightarrow> None | Some f \<Rightarrow> Some 50)\<rparr>\<rparr>"

definition getDynamicDuration :: "rig_state \<Rightarrow> real" where
  "getDynamicDuration st = dynamicDurationRef st"

text \<open>
  The value of \<open>currentTime\<close> that \<open>useFrame\<close> computes from the reading \<open>clock\<close> of
  \<open>clock.getElapsedTime()\<close>, together with the state after latching the start time.
  All calls of \<open>clock.getElapsedTime()\<close> within one call of \<open>useFrame\<close> are taken to
  return the same reading.
\<close>

definition frameTime :: "real \<Rightarrow> rig_state \<Rightarrow> real \<times> rig_state" where
  "frameTime clock st =
     (if isRecordingRef st then
        (case animationStartTimeRef st of
           None \<Rightarrow> (clock - clock, st\<lparr>animationStartTimeRef := Some clock\<rparr>)
         | Some start \<Rightarrow> (clock - start, st))
      else (js_rem (clock * 0.1) (dynamicDurationRef st), st))"

definition useFrame :: "rig_props \<Rightarrow> real \<Rightarrow> rig_state \<Rightarrow> rig_state" where
  "useFrame props clock st =
     (if \<not> enabled props then st
      else
        let (currentTime, st1) = frameTime clock st;
            p = interpolateKeyframes st1 currentTime;
            cam = rig_camera st1;
            cam1 = (if isRecordingRef st1
                    then cam\<lparr>cam_position := pose_position p, cam_target := pose_lookAt p\<rparr>
                    else cam\<lparr>cam_position := lerpVectors (cam_position cam) (pose_position p) 0.05,
                             cam_target := pose_lookAt p\<rparr>);
            cam2 = (case cam_fov cam1 of
                      None \<Rightarrow> cam1
                    | Some f \<Rightarrow>
                        if isRecordingRef st1 then cam1\<lparr>cam_fov := Some (pose_fov p)\<rparr>
                        else if \<bar>f - pose_fov p\<bar> > 0.1
                             then cam1\<lparr>cam_fov := Some (lerp f (pose_fov p) 0.02)\<rparr>
                             else cam1)
        in st1\<lparr>rig_camera := cam2\<rparr>)"

text \<open>
  The times at which successive calls of \<open>useFrame\<close> query the interpolator, one call per
  clock reading of the list. A call of a disabled rig returns before it queries.
\<close>

fun query_times :: "rig_props \<Rightarrow> real list \<Rightarrow> rig_state \<Rightarrow> real list" where
  "query_times props [] st = []"
| "query_times props (clock # clocks) st =
     (if enabled props then [fst (frameTime clock st)] else [])
     @ query_times props clocks (useFrame props clock st)"

section \<open>The capture hook (useVideoCapture)\<close>

text \<open>
  The repository holds two versions of the hook. The later one adds an optional audio
  track, a guard that restores the canvas size, and a pacing delay before the next call is
  scheduled; the guard against a second capture, the loop condition, the timestamps, the
  error handling and the clean-up are the same in both. The model follows the earlier one.

  The encoder library is external. What the hook observes of it is whether a call throws
  and whether the finalized target holds a buffer; these are parameters of the model.
  \<open>add_throws i\<close> says whether \<open>videoSource.add\<close> throws when called with frame counter
  \<open>i\<close>.
\<close>

record encoder_env =
  start_throws :: bool
  add_throws :: "nat \<Rightarrow> bool"
  finalize_throws :: bool
  buffer_missing :: bool
  cancel_throws :: bool

datatype error = AlreadyRecording | NoActiveRecording | FailedToGetBuffer | EncoderError

text \<open>
  The \<open>Output\<close> object with its video track: whether \<open>start()\<close> has run and the frames
  added so far, each a pair of timestamp and duration in seconds. The bytes of the
  finished file are represented by the frames it holds.
\<close>

record Output =
  out_started :: bool
  out_frames :: "(real \<times> real) list"

text \<open>
  The refs of the hook, and the two locals \<open>totalFrames\<close> and \<open>frameCount\<close> of the
  running call of \<open>startRecording\<close>, which its \<open>captureFrame\<close> closure reads and writes.
\<close>

record capture_state =
  vc_isRecordingRef :: bool
  vc_outputRef :: "Output option"
  vc_videoSourceRef :: bool
  totalFrames :: real
  frameCount :: nat

definition fps :: real where
  "fps = 30"

definition timestampInSeconds :: "nat \<Rightarrow> real" where
  "timestampInSeconds n = real n / fps"

definition durationInSeconds :: real where
  "durationInSeconds = 1 / fps"

definition cleanup :: "capture_state \<Rightarrow> capture_state" where
  "cleanup st = st\<lparr>vc_isRecordingRef := False, vc_outputRef := None, vc_videoSourceRef := False\<rparr>"

text \<open>
  \<open>finishRecording\<close>: the guard throws before the \<open>try\<close> block, so the \<open>finally\<close> clean-up
  runs only behind it.
\<close>

definition finishRecording ::
  "encoder_env \<Rightarrow> capture_state \<Rightarrow> (error + (real \<times> real) list) \<times> capture_state" where
  "finishRecording env st =
     (case vc_outputRef st of
        None \<Rightarrow> (Inl NoActiveRecording, st)
      | Some out \<Rightarrow>
          if \<not> vc_isRecordingRef st then (Inl NoActiveRecording, st)
          else if finalize_throws env then (Inl EncoderError, cleanup st)
          else if buffer_missing env then (Inl FailedToGetBuffer, cleanup st)
          else (Inr (out_frames out), cleanup st))"

definition stopRecording :: "encoder_env \<Rightarrow> capture_state \<Rightarrow> error option \<times> capture_state" where
  "stopRecording env st =
     (case vc_outputRef st of
        None \<Rightarrow> (None, st)
      | Some out \<Rightarrow>
          if \<not> vc_isRecordingRef st then (None, st)
          else ((if cancel_throws env then Some EncoderError else None), cleanup st))"

text \<open>
  One call of \<open>captureFrame\<close>. The result \<open>None\<close> means that the promise is still pending
  and the next call has been scheduled with \<open>requestAnimationFrame\<close>; \<open>Some r\<close> means
  that the promise was settled with \<open>r\<close> (\<open>Inl\<close> rejected, \<open>Inr\<close> resolved) and nothing
  was scheduled.
\<close>

definition captureFrame ::
  "encoder_env \<Rightarrow> capture_state
   \<Rightarrow> (error + (real \<times> real) list) option \<times> capture_state" where
  "captureFrame env st =
     (if \<not> vc_isRecordingRef st \<or> real (frameCount st) \<ge> totalFrames st then
        (case finishRecording env st of (r, st') \<Rightarrow> (Some r, st'))
      else if add_throws env (frameCount st) then (Some (Inl EncoderError), st)
      else
        (None,
         st\<lparr>vc_outputRef :=
               map_option
                 (\<lambda>out. out\<lparr>out_frames := out_frames out
                     @ [(timestampInSeconds (frameCount st), durationInSeconds)]\<rparr>)
                 (vc_outputRef st),
            frameCount := frameCount st + 1\<rparr>))"

text \<open>
  The chain of scheduled calls of \<open>captureFrame\<close>, until the promise is settled. Each
  call schedules at most one successor, so the chain is a loop; a call of \<open>stopRecording\<close>
  from outside between two calls is not part of it.
\<close>

function capture_loop ::
  "encoder_env \<Rightarrow> capture_state \<Rightarrow> (error + (real \<times> real) list) \<times> capture_state" where
  "capture_loop env st =
     (case captureFrame env st of
        (Some r, st') \<Rightarrow> (r, st')
      | (None, st') \<Rightarrow> capture_loop env st')"
  by pat_completeness auto
termination
  apply (relation "measure (\<lambda>(env, st). nat (\<lceil>totalFrames st\<rceil> - int (frameCount st)))")
   apply simp
  apply (auto simp: captureFrame_def less_ceiling_iff split: if_splits prod.splits)
  done

declare capture_loop.simps [simp del]

text \<open>
  \<open>startRecording(canvas, duration)\<close>, as the settlement of the promise it returns and the
  state it leaves. The canvas is only read for logging and for the encoder, and is not a
  parameter here; the default of 5 seconds for \<open>duration\<close> is left to the caller.
  \<open>totalFrames\<close> is the double that \<open>duration * fps\<close> evaluates to. The counter
  \<open>frameCount\<close> is a natural number: increments of a double are exact below \<open>2 ^ 53\<close>.
\<close>

definition startRecording ::
  "encoder_env \<Rightarrow> real \<Rightarrow> capture_state \<Rightarrow> (error + (real \<times> real) list) \<times> capture_state" where
  "startRecording env dur st =
     (if vc_isRecordingRef st then (Inl AlreadyRecording, st)
      else
        let st1 = st\<lparr>vc_isRecordingRef := True,
                     vc_outputRef := Some \<lparr>out_started = False, out_frames = []\<rparr>,
                     vc_videoSourceRef := True\<rparr>
        in if start_throws env then (Inl EncoderError, st1)
           else capture_loop env
                  (st1\<lparr>vc_outputRef := Some \<lparr>out_started = True, out_frames = []\<rparr>,
                       totalFrames := to_double (dur * fps), frameCount := 0\<rparr>))"

text \<open>
  The frames that \<open>n\<close> successive calls of \<open>captureFrame\<close> submit, starting from frame
  counter 0: frame \<open>k\<close> carries the timestamp \<open>k / fps\<close> and the duration \<open>1 / fps\<close>.
\<close>

definition frame_tags :: "nat \<Rightarrow> (real \<times> real) list" where
  "frame_tags n = map (\<lambda>k. (timestampInSeconds k, durationInSeconds)) [0 ..< n]"

section \<open>Concrete inputs\<close>

text \<open>An encoder of which no call throws, and one whose third \<open>add\<close> throws.\<close>

definition reliable_encoder :: encoder_env where
  "reliable_encoder =
     \<lparr>start_throws = False, add_throws = (\<lambda>i. False), finalize_throws = False,
      buffer_missing = False, cancel_throws = False\<rparr>"

definition failing_encoder :: encoder_env where
  "failing_encoder =
     \<lparr>start_throws = False, add_throws = (\<lambda>i. i = 2), finalize_throws = False,
      buffer_missing = False, cancel_throws = False\<rparr>"

text \<open>
  The doubles that the literals \<open>8.3\<close> and \<open>0.1\<close> denote
  (\<open>8.300000000000000710...\<close> and \<open>0.1000000000000000055...\<close>).
\<close>

definition double_8_3 :: real where
  "double_8_3 = 4672484613396890 / 2 ^ 49"

definition double_0_1 :: real where
  "double_0_1 = 3602879701896397 / 2 ^ 55"

text \<open>The hook before any capture, and in the middle of a 20 second capture.\<close>

definition idle_capture :: capture_state where
  "idle_capture =
     \<lparr>vc_isRecordingRef = False, vc_outputRef = None, vc_videoSourceRef = False,
      totalFrames = 0, frameCount = 0\<rparr>"

definition running_capture :: capture_state where
  "running_capture =
     \<lparr>vc_isRecordingRef = True,
      vc_outputRef = Some \<lparr>out_started = True, out_frames = frame_tags 3\<rparr>,
      vc_videoSourceRef = True, totalFrames = 600, frameCount = 3\<rparr>"

text \<open>
  The camera the application mounts (\<open>position: [0, 3, 8], fov: 50\<close>), the rig as the
  application configures it (\<open>duration={20}\<close>) over no, one, two and five assets, and
  the rig with one asset and a duration prop of 10.
\<close>

definition app_camera :: camera where
  "app_camera = \<lparr>cam_position = Vec3 0 3 8, cam_target = Vec3 0 0 0, cam_fov = Some 50\<rparr>"

definition initial_rig :: "rig_props \<Rightarrow> rig_state" where
  "initial_rig props = initial_rig_with app_camera props"

definition no_asset_props :: rig_props where
  "no_asset_props =
     \<lparr>enabled = True, duration = 20, assetsPositions = [], startPosition = None\<rparr>"

definition one_asset_props :: rig_props where
  "one_asset_props =
     \<lparr>enabled = True, duration = 20, assetsPositions = [Vec3 0 0 0], startPosition = None\<rparr>"

definition two_asset_props :: rig_props where
  "two_asset_props =
     \<lparr>enabled = True, duration = 20, assetsPositions = [Vec3 1 0 0, Vec3 (- 1) 0 0],
      startPosition = None\<rparr>"

definition five_asset_props :: rig_props where
  "five_asset_props =
     \<lparr>enabled = True, duration = 20,
      assetsPositions = [Vec3 1 0 0, Vec3 0 0 1, Vec3 (- 1) 0 0, Vec3 0 0 (- 1), Vec3 2 0 2],
      startPosition = None\<rparr>"

definition short_props :: rig_props where
  "short_props =
     \<lparr>enabled = True, duration = 10, assetsPositions = [Vec3 0 0 0], startPosition = None\<rparr>"

text \<open>The rig after \<open>startRecordingAnimation\<close>, with the random angle drawn as 0.\<close>

definition recording_rig :: rig_state where
  "recording_rig = startRecordingAnimation one_asset_props 0 (initial_rig one_asset_props)"

definition short_rig :: rig_state where
  "short_rig = startRecordingAnimation short_props 0 (initial_rig short_props)"

section \<open>Duration of the generated path\<close>

text \<open>
  C3. For every asset list with at least two assets, the duration returned with the
  generated path is \<open>max(20, 6 + assetCount * 4)\<close> seconds.
\<close>

theorem multi_asset_duration:
  assumes "2 \<le> length (assetsPositions props)"
  shows "dynamicDuration (generateRandomKeyframes props baseAngle)
         = max 20 (6 + real (length (assetsPositions props)) * 4)"
  using assms by (simp add: generateRandomKeyframes_def generateMultiAssetAnimation_def Let_def)

theorem multi_asset_duration_witness:
  "2 \<le> length (assetsPositions five_asset_props)
   \<and> dynamicDuration (generateRandomKeyframes five_asset_props 0) = 26"
  using multi_asset_duration [of five_asset_props 0]
  by (simp add: five_asset_props_def)

section \<open>The generated path\<close>

text \<open>The times and fields of the fixed single-asset path.\<close>

lemma single_asset_times:
  "map time (generateSingleAssetAnimation sp a b) = [0, 3, 6, 9, 12, 15, 18, 20]"
  by (simp add: generateSingleAssetAnimation_def Let_def)

lemma single_asset_fovs:
  "map fov (generateSingleAssetAnimation sp a b)
     = [Some 50, Some 45, Some 40, Some 35, Some 30, Some 40, Some 50, Some 55]"
  by (simp add: generateSingleAssetAnimation_def Let_def)

text \<open>The path generated for an empty asset list.\<close>

lemma empty_assets_keyframes:
  assumes "assetsPositions props = []"
  shows "map time (keyframes (generateRandomKeyframes props baseAngle)) = [0, 2, 4, 6, 20]"
    and "map lookAt (keyframes (generateRandomKeyframes props baseAngle))
         = [Vec3 0 0 0, Vec3 0 0 0, Vec3 0 0 0, Vec3 0 0 0, Vec3 0 0 0]"
    and "dynamicDuration (generateRandomKeyframes props baseAngle) = 20"
  using assms
  by (simp_all add: generateRandomKeyframes_def generateMultiAssetAnimation_def
      intro_movements_def Let_def)

text \<open>
  C9 (as the code has it). When the asset list given to the path generator is empty, it
  does not fail: it takes the multi-asset branch with the origin as centre and returns
  a path of five keyframes, at 0, 2, 4, 6 and 20 seconds, each looking at the origin, with
  a duration of 20 seconds.
\<close>

theorem empty_assets_path:
  assumes "assetsPositions props = []"
  shows "map time (keyframes (generateRandomKeyframes props baseAngle)) = [0, 2, 4, 6, 20]
    \<and> map lookAt (keyframes (generateRandomKeyframes props baseAngle))
         = [Vec3 0 0 0, Vec3 0 0 0, Vec3 0 0 0, Vec3 0 0 0, Vec3 0 0 0]
    \<and> dynamicDuration (generateRandomKeyframes props baseAngle) = 20"
  using empty_assets_keyframes[OF assms] by simp

theorem empty_assets_path_witness:
  "assetsPositions no_asset_props = []
   \<and> map time (keyframes (generateRandomKeyframes no_asset_props 0)) = [0, 2, 4, 6, 20]
   \<and> dynamicDuration (generateRandomKeyframes no_asset_props 0) = 20"
  using empty_assets_path [of no_asset_props 0]
  by (simp add: no_asset_props_def)

text \<open>
  C9 as stated fails: the path returned for the empty asset list has five keyframes, not
  one.
\<close>

theorem empty_assets_counterexample:
  "length (keyframes (generateRandomKeyframes no_asset_props 0)) = 5
   \<and> length (keyframes (generateRandomKeyframes no_asset_props 0)) \<noteq> 1"
proof -
  have "map time (keyframes (generateRandomKeyframes no_asset_props 0)) = [0, 2, 4, 6, 20]"
    by (rule empty_assets_keyframes) (simp add: no_asset_props_def)
  from arg_cong[OF this, of length] show ?thesis by simp
qed

text \<open>
  After a sort by key, the first element carries the least key and the last element the
  greatest.
\<close>

lemma hd_sort_key_least:
  fixes f :: "'a \<Rightarrow> real"
  assumes "\<forall>x\<in>set xs. lo \<le> f x" "\<exists>x\<in>set xs. f x = lo"
  shows "f (hd (sort_key f xs)) = lo"
proof -
  let ?ys = "sort_key f xs"
  from assms(2) obtain z where z: "z \<in> set ?ys" "f z = lo"
    by auto
  then obtain y ys where ys: "?ys = y # ys"
    by (cases ?ys) auto
  have "sorted (map f ?ys)"
    by (rule sorted_sort_key)
  with ys z have "f y \<le> lo"
    by auto
  moreover have "y \<in> set xs"
    using ys by (metis list.set_intros(1) set_sort)
  ultimately show ?thesis
    using assms(1) ys by fastforce
qed

lemma last_sort_key_greatest:
  fixes f :: "'a \<Rightarrow> real"
  assumes "\<forall>x\<in>set xs. f x \<le> hi" "\<exists>x\<in>set xs. f x = hi"
  shows "f (last (sort_key f xs)) = hi"
proof -
  let ?ys = "sort_key f xs"
  from assms(2) obtain z where z: "z \<in> set ?ys" "f z = hi"
    by auto
  from assms(2) have "length ?ys \<noteq> 0"
    by auto
  then have ne: "?ys \<noteq> []"
    by (simp only: length_0_conv not_False_eq_True)
  then have ys: "?ys = butlast ?ys @ [last ?ys]"
    by simp
  have "sorted (map f (butlast ?ys @ [last ?ys]))"
    using sorted_sort_key[of f xs] ys by simp
  then have "\<forall>x\<in>set (butlast ?ys). f x \<le> f (last ?ys)"
    by (auto simp: sorted_append)
  moreover have "z \<in> set (butlast ?ys) \<or> z = last ?ys"
    using z(1) ys by (metis Un_iff empty_iff insert_iff list.set(1) list.set(2) set_append)
  ultimately have "hi \<le> f (last ?ys)"
    using z(2) by auto
  moreover have "last ?ys \<in> set xs"
    using ne by (metis last_in_set set_sort)
  ultimately show ?thesis
    using assms(1) by fastforce
qed

text \<open>Every keyframe of the tour lies between the intro and the end of its slice.\<close>

lemma tour_movements_times:
  assumes "k \<in> set (tour_movements assets baseAngle 6 tpa i)" "0 \<le> tpa"
  shows "0 \<le> time k \<and> time k \<le> 6 + real (i + 1) * tpa"
proof -
  have "0 \<le> real i * tpa"
    using assms(2) by simp
  moreover have "tpa * 0.5 \<le> tpa"
    using assms(2) by simp
  ultimately show ?thesis
    using assms by (auto simp: tour_movements_def Let_def algebra_simps split: if_splits)
qed

lemma multi_asset_times:
  assumes "assets \<noteq> []"
  shows "sorted (map time (keyframes (generateMultiAssetAnimation sp ctr assets baseAngle)))"
    and "keyframes (generateMultiAssetAnimation sp ctr assets baseAngle) \<noteq> []"
    and "time (hd (keyframes (generateMultiAssetAnimation sp ctr assets baseAngle))) = 0"
    and "time (last (keyframes (generateMultiAssetAnimation sp ctr assets baseAngle)))
         = dynamicDuration (generateMultiAssetAnimation sp ctr assets baseAngle)"
proof -
  define n where "n = length assets"
  define D :: real where "D = max 20 (6 + real n * 4)"
  define tpa where "tpa = (D - 6) / real n"
  define ms where "ms = intro_movements sp ctr baseAngle
            @ concat (map (tour_movements assets baseAngle 6 tpa) [0 ..< n])
            @ [ \<lparr>time = D,
                 position = Vec3 (vx ctr + sin (baseAngle + 6) * 5)
                                 (vy ctr + 3)
                                 (vz ctr + cos (baseAngle + 6) * 5),
                 lookAt = ctr, fov = Some 60\<rparr> ]"
  have g: "generateMultiAssetAnimation sp ctr assets baseAngle
      = \<lparr>keyframes = sort_key time ms, dynamicDuration = D\<rparr>"
    by (simp add: generateMultiAssetAnimation_def Let_def ms_def tpa_def D_def n_def)
  have n: "0 < n"
    using assms by (simp add: n_def)
  have D: "20 \<le> D"
    by (simp add: D_def)
  then have tpa: "0 \<le> tpa"
    using n by (simp add: tpa_def)
  have ntpa: "real n * tpa = D - 6"
    using n by (simp add: tpa_def)
  have tour: "0 \<le> time k \<and> time k \<le> D"
    if "k \<in> set (tour_movements assets baseAngle 6 tpa i)" "i < n" for k i
  proof -
    have "real (i + 1) * tpa \<le> real n * tpa"
      using that(2) tpa by (intro mult_right_mono) simp_all
    with tour_movements_times[OF that(1) tpa] ntpa show ?thesis
      by simp
  qed
  have bounds: "\<forall>k\<in>set ms. 0 \<le> time k \<and> time k \<le> D"
    using D tour by (auto simp: ms_def intro_movements_def)
  have has0: "\<exists>k\<in>set ms. time k = 0"
    by (simp add: ms_def intro_movements_def)
  have hasD: "\<exists>k\<in>set ms. time k = D"
    by (simp add: ms_def)
  show "sorted (map time (keyframes (generateMultiAssetAnimation sp ctr assets baseAngle)))"
    by (simp add: g sorted_sort_key)
  show "keyframes (generateMultiAssetAnimation sp ctr assets baseAngle) \<noteq> []"
    by (simp add: g ms_def intro_movements_def)
  show "time (hd (keyframes (generateMultiAssetAnimation sp ctr assets baseAngle))) = 0"
    using bounds has0 by (simp add: g hd_sort_key_least)
  show "time (last (keyframes (generateMultiAssetAnimation sp ctr assets baseAngle)))
         = dynamicDuration (generateMultiAssetAnimation sp ctr assets baseAngle)"
    using bounds hasD by (simp add: g last_sort_key_greatest)
qed

text \<open>
  C4 (as the code has it). For every non-empty asset list the generator returns a
  non-empty keyframe sequence sorted ascending by time, equal times allowed, whose first
  keyframe has time 0. For a single asset the times are strictly ascending and the last
  one is 20; for several assets the last time is the returned duration.
\<close>

theorem generated_path_sorted:
  assumes "assetsPositions props \<noteq> []"
  shows "keyframes (generateRandomKeyframes props baseAngle) \<noteq> []
    \<and> sorted (map time (keyframes (generateRandomKeyframes props baseAngle)))
    \<and> time (hd (keyframes (generateRandomKeyframes props baseAngle))) = 0
    \<and> (if length (assetsPositions props) = 1
       then sorted_wrt (<) (map time (keyframes (generateRandomKeyframes props baseAngle)))
          \<and> time (last (keyframes (generateRandomKeyframes props baseAngle))) = 20
       else time (last (keyframes (generateRandomKeyframes props baseAngle)))
            = dynamicDuration (generateRandomKeyframes props baseAngle))"
proof (cases "length (assetsPositions props) = 1")
  case True
  let ?ks = "generateSingleAssetAnimation (startPosition props) (assetsPositions props ! 0)
     baseAngle"
  have k: "keyframes (generateRandomKeyframes props baseAngle) = ?ks"
    using True by (simp add: generateRandomKeyframes_def Let_def)
  have t: "map time ?ks = [0, 3, 6, 9, 12, 15, 18, 20]"
    by (rule single_asset_times)
  then have ne: "?ks \<noteq> []"
    by auto
  have "time (hd ?ks) = 0"
    using arg_cong[OF t, of hd] ne by (simp add: hd_map)
  moreover have "time (last ?ks) = 20"
    using arg_cong[OF t, of last] ne by (simp add: last_map)
  moreover have "sorted_wrt (<) (map time ?ks)" "sorted (map time ?ks)"
    unfolding t by simp_all
  ultimately show ?thesis
    using True ne by (simp add: k)
next
  case False
  then have g: "generateRandomKeyframes props baseAngle
      = generateMultiAssetAnimation (startPosition props)
          (divideScalar (foldl vec_add (Vec3 0 0 0) (assetsPositions props))
             (real (length (assetsPositions props))))
          (assetsPositions props) baseAngle"
    using assms by (simp add: generateRandomKeyframes_def Let_def)
  show ?thesis
    using False multi_asset_times[OF assms] unfolding g by simp
qed

theorem generated_path_sorted_witness:
  "assetsPositions two_asset_props \<noteq> []
   \<and> sorted (map time (keyframes (generateRandomKeyframes two_asset_props 0)))
   \<and> time (hd (keyframes (generateRandomKeyframes two_asset_props 0))) = 0
   \<and> time (last (keyframes (generateRandomKeyframes two_asset_props 0))) = 20"
proof -
  have d: "dynamicDuration (generateRandomKeyframes two_asset_props 0) = 20"
    by (simp add: generateRandomKeyframes_def generateMultiAssetAnimation_def Let_def
        two_asset_props_def)
  have l: "length (assetsPositions two_asset_props) \<noteq> 1"
     and ne: "assetsPositions two_asset_props \<noteq> []"
    by (simp_all add: two_asset_props_def)
  show ?thesis
    using generated_path_sorted [OF ne, of 0] l d ne by simp
qed

text \<open>
  C4 as stated fails: with two assets the intro ends at 6 seconds where the first
  approach starts, and the transition out of the first asset shares its time with the
  approach of the second, so the sorted times repeat 6 and 13.
\<close>

theorem strict_order_counterexample:
  "map time (keyframes (generateRandomKeyframes two_asset_props 0))
     = [0, 2, 4, 6, 6, 19 / 2, 13, 13, 33 / 2, 20]
   \<and> \<not> sorted_wrt (<) (map time (keyframes (generateRandomKeyframes two_asset_props 0)))"
proof -
  have "map time (keyframes (generateRandomKeyframes two_asset_props 0))
     = [0, 2, 4, 6, 6, 19 / 2, 13, 13, 33 / 2, 20]"
    by (simp add: generateRandomKeyframes_def generateMultiAssetAnimation_def Let_def
        two_asset_props_def intro_movements_def tour_movements_def numeral_2_eq_2)
  then show ?thesis
    by simp
qed

section \<open>The interpolator\<close>

text \<open>
  C10. Querying the interpolator when the keyframe set is empty returns, for every query
  time, the pose with position \<open>(0, 2, 5)\<close>, look-at \<open>(0, 0, 0)\<close> and field of view 50;
  and from every state \<open>st'\<close> of the rig, with or without a path loaded, \<open>resetAnimation\<close>
  puts the camera at the same position, turns it to the same point, sets the same field
  of view (where the camera has one) and empties the keyframe set, so that a query
  after it returns that pose again.
\<close>

theorem empty_keyframes_default_pose:
  assumes "keyframesRef st = []"
  shows "interpolateKeyframes st t
           = \<lparr>pose_position = Vec3 0 2 5, pose_lookAt = Vec3 0 0 0, pose_fov = 50\<rparr>
    \<and> cam_position (rig_camera (resetAnimation props st')) = Vec3 0 2 5
    \<and> cam_target (rig_camera (resetAnimation props st')) = Vec3 0 0 0
    \<and> cam_fov (rig_camera (resetAnimation props st'))
        = (case cam_fov (rig_camera st') of None \<Rightarrow> None | Some f \<Rightarrow> Some 50)
    \<and> keyframesRef (resetAnimation props st') = []
    \<and> interpolateKeyframes (resetAnimation props st') t
           = \<lparr>pose_position = Vec3 0 2 5, pose_lookAt = Vec3 0 0 0, pose_fov = 50\<rparr>"
  using assms by (simp add: interpolateKeyframes_def resetAnimation_def)

theorem empty_keyframes_default_pose_witness:
  "keyframesRef (initial_rig one_asset_props) = []
   \<and> keyframesRef recording_rig \<noteq> []
   \<and> interpolateKeyframes (initial_rig one_asset_props) 7
       = \<lparr>pose_position = Vec3 0 2 5, pose_lookAt = Vec3 0 0 0, pose_fov = 50\<rparr>
   \<and> cam_position (rig_camera (resetAnimation one_asset_props recording_rig)) = Vec3 0 2 5
   \<and> cam_target (rig_camera (resetAnimation one_asset_props recording_rig)) = Vec3 0 0 0
   \<and> cam_fov (rig_camera (resetAnimation one_asset_props recording_rig)) = Some 50
   \<and> interpolateKeyframes (resetAnimation one_asset_props recording_rig) 7
       = \<lparr>pose_position = Vec3 0 2 5, pose_lookAt = Vec3 0 0 0, pose_fov = 50\<rparr>"
proof -
  have e: "keyframesRef (initial_rig one_asset_props) = []"
    by (simp add: initial_rig_def initial_rig_with_def)
  have l: "keyframesRef recording_rig \<noteq> []"
    by (simp add: recording_rig_def startRecordingAnimation_def generateRandomKeyframes_def
        generateSingleAssetAnimation_def one_asset_props_def Let_def)
  have f: "cam_fov (rig_camera recording_rig) = Some 50"
    by (simp add: recording_rig_def startRecordingAnimation_def initial_rig_def
        initial_rig_with_def app_camera_def Let_def)
  show ?thesis
    using empty_keyframes_default_pose [OF e, of 7 one_asset_props recording_rig] e l f
    by simp
qed

text \<open>The state of the rig after \<open>startRecordingAnimation\<close> with one asset.\<close>

lemma recording_rig_simps:
  "keyframesRef recording_rig = generateSingleAssetAnimation None (Vec3 0 0 0) 0"
  "dynamicDurationRef recording_rig = 20"
  "isRecordingRef recording_rig"
  by (simp_all add: recording_rig_def startRecordingAnimation_def generateRandomKeyframes_def
      one_asset_props_def Let_def)

lemma short_rig_simps:
  "keyframesRef short_rig = generateSingleAssetAnimation None (Vec3 0 0 0) 0"
  "dynamicDurationRef short_rig = 10"
  "isRecordingRef short_rig"
  by (simp_all add: short_rig_def startRecordingAnimation_def generateRandomKeyframes_def
      short_props_def Let_def)

text \<open>
  In a list sorted by time, the search loop stops at the pair that strictly encloses the
  clamped time.
\<close>

lemma find_interval_sorted:
  assumes "sorted (map time kfs)" "i + 1 < length kfs"
    "time (kfs ! i) < c" "c < time (kfs ! (i + 1))"
  shows "find_interval kfs c d = (kfs ! i, kfs ! (i + 1))"
  using assms
proof (induction kfs c d arbitrary: i rule: find_interval.induct)
  case (1 a b rest c d)
  show ?case
  proof (cases i)
    case 0
    with "1.prems" show ?thesis by simp
  next
    case (Suc j)
    have "time b \<le> time ((b # rest) ! j)"
      using "1.prems"(1,2) Suc by (cases j) auto
    then have nb: "\<not> c \<le> time b"
      using "1.prems"(3) Suc by simp
    have "find_interval (b # rest) c d = ((b # rest) ! j, (b # rest) ! (j + 1))"
      using "1.prems" Suc nb by (intro "1.IH") auto
    with nb Suc show ?thesis by simp
  qed
qed simp_all

lemma sorted_hd_le_nth:
  assumes "sorted (map time kfs)" "i < length kfs"
  shows "time (hd kfs) \<le> time (kfs ! i)"
  using assms by (cases kfs; cases i) auto

lemma sorted_nth_le_last:
  assumes "sorted (map time kfs)" "i < length kfs"
  shows "time (kfs ! i) \<le> time (last kfs)"
proof -
  have "map time kfs ! i \<le> map time kfs ! (length kfs - 1)"
    using assms by (intro sorted_nth_mono) auto
  then show ?thesis
    using assms by (cases "kfs = []") (simp_all add: last_conv_nth)
qed

text \<open>
  C5 (as the code has it). For every keyframe set sorted by time and every query whose
  clamped time \<open>c\<close> lies strictly between the times of two adjacent keyframes, with
  \<open>t\<close> the fraction of that interval which \<open>c\<close> has covered, the interpolated position,
  look-at and field of view are all three blended with the eased factor \<open>ease t\<close>
  (the field of view between the two values \<open>fov || 50\<close>).
\<close>

theorem interpolation_between_keyframes:
  assumes "sorted (map time (keyframesRef st))"
    and "i + 1 < length (keyframesRef st)"
    and "c = max 0 (min currentTime (dynamicDurationRef st))"
    and "time (keyframesRef st ! i) < c"
    and "c < time (keyframesRef st ! (i + 1))"
    and "t = (c - time (keyframesRef st ! i))
             / (time (keyframesRef st ! (i + 1)) - time (keyframesRef st ! i))"
  shows "interpolateKeyframes st currentTime =
     \<lparr>pose_position = lerpVectors (position (keyframesRef st ! i))
                         (position (keyframesRef st ! (i + 1))) (ease (isRecordingRef st) t),
      pose_lookAt = lerpVectors (lookAt (keyframesRef st ! i))
                         (lookAt (keyframesRef st ! (i + 1))) (ease (isRecordingRef st) t),
      pose_fov = lerp (fov_or_default (fov (keyframesRef st ! i)))
                      (fov_or_default (fov (keyframesRef st ! (i + 1))))
                      (ease (isRecordingRef st) t)\<rparr>"
proof -
  let ?kfs = "keyframesRef st"
  have ne: "length ?kfs \<noteq> 0"
    using assms(2) by auto
  have "time (hd ?kfs) \<le> time (?kfs ! i)"
    using assms(1,2) by (intro sorted_hd_le_nth) auto
  then have lo: "\<not> c \<le> time (hd ?kfs)"
    using assms(4) by simp
  have "time (?kfs ! (i + 1)) \<le> time (last ?kfs)"
    using assms(1,2) by (intro sorted_nth_le_last) auto
  then have hi: "\<not> time (last ?kfs) \<le> c"
    using assms(5) by simp
  have fi: "find_interval ?kfs c (hd ?kfs, last ?kfs) = (?kfs ! i, ?kfs ! (i + 1))"
    using assms(1,2,4,5) by (rule find_interval_sorted)
  have pos: "time (?kfs ! (i + 1)) - time (?kfs ! i) > 0"
    using assms(4,5) by simp
  show ?thesis
    using ne lo hi pos
    by (simp add: interpolateKeyframes_def Let_def assms(3)[symmetric] fi assms(6))
qed

theorem interpolation_between_keyframes_witness:
  "sorted (map time (keyframesRef recording_rig))
   \<and> 0 + 1 < length (keyframesRef recording_rig)
   \<and> (1::real) = max 0 (min 1 (dynamicDurationRef recording_rig))
   \<and> time (keyframesRef recording_rig ! 0) < 1
   \<and> 1 < time (keyframesRef recording_rig ! (0 + 1))
   \<and> pose_fov (interpolateKeyframes recording_rig 1) = lerp 50 45 (ease True (1 / 3))"
proof -
  have t: "map time (keyframesRef recording_rig) = [0, 3, 6, 9, 12, 15, 18, 20]"
    by (simp add: recording_rig_simps single_asset_times)
  have f: "map fov (keyframesRef recording_rig)
     = [Some 50, Some 45, Some 40, Some 35, Some 30, Some 40, Some 50, Some 55]"
    by (simp add: recording_rig_simps single_asset_fovs)
  have l: "length (keyframesRef recording_rig) = 8"
    using arg_cong[OF t, of length] by simp
  have t0: "time (keyframesRef recording_rig ! 0) = 0"
    using arg_cong[OF t, of "\<lambda>xs. xs ! 0"] l by simp
  have t1: "time (keyframesRef recording_rig ! (0 + 1)) = 3"
    using arg_cong[OF t, of "\<lambda>xs. xs ! 1"] l by simp
  have f0: "fov (keyframesRef recording_rig ! 0) = Some 50"
    using arg_cong[OF f, of "\<lambda>xs. xs ! 0"] l by simp
  have f1: "fov (keyframesRef recording_rig ! Suc 0) = Some 45"
    using arg_cong[OF f, of "\<lambda>xs. xs ! 1"] l by simp
  have r: "isRecordingRef recording_rig"
    by (simp add: recording_rig_simps)
  have s: "sorted (map time (keyframesRef recording_rig))"
    unfolding t by simp
  have h3: "(1::real) = max 0 (min 1 (dynamicDurationRef recording_rig))"
    by (simp add: recording_rig_simps)
  have h2: "0 + 1 < length (keyframesRef recording_rig)"
    using l by simp
  have h4: "time (keyframesRef recording_rig ! 0) < 1"
    using t0 by simp
  have h5: "1 < time (keyframesRef recording_rig ! (0 + 1))"
    using t1 by simp
  have h6: "(1 / 3 :: real) = (1 - time (keyframesRef recording_rig ! 0))
       / (time (keyframesRef recording_rig ! (0 + 1)) - time (keyframesRef recording_rig ! 0))"
    using t0 t1 by simp
  have "pose_fov (interpolateKeyframes recording_rig 1) = lerp 50 45 (ease True (1 / 3))"
    using interpolation_between_keyframes [OF s h2 h3 h4 h5 h6]
    by (simp add: f0 f1 r fov_or_default_def)
  with s h2 h3 h4 h5 show ?thesis by blast
qed

text \<open>
  C5 as stated fails: one second into the single-asset path (field of view 50 at 0s, 45
  at 3s) the raw factor is \<open>1/3\<close> and the eased factor \<open>7/27\<close>; the field of view
  returned is \<open>1315/27\<close>, the eased blend, and not the linear blend at \<open>1/3\<close>.
\<close>

theorem fov_eased_counterexample:
  "pose_fov (interpolateKeyframes recording_rig 1) = 1315 / 27
   \<and> pose_fov (interpolateKeyframes recording_rig 1) \<noteq> lerp 50 45 (1 / 3)"
proof -
  have "pose_fov (interpolateKeyframes recording_rig 1) = 1315 / 27"
    by (simp add: interpolateKeyframes_def recording_rig_simps generateSingleAssetAnimation_def
        Let_def ease_def lerp_def fov_or_default_def)
  then show ?thesis
    by (simp add: lerp_def)
qed

text \<open>
  C6 (as the code has it). For every non-empty keyframe set whose first time is not
  negative: a query at any time up to the first keyframe's time returns the first
  keyframe's pose (its position, look-at and \<open>fov || 50\<close>) without blending; and when the
  stored duration is at least the last keyframe's time, and the set has one keyframe or
  its last time is later than its first, a query at any time from the last keyframe's
  time on returns the last keyframe's pose without blending.
\<close>

theorem edge_queries_return_edge_keyframes:
  assumes "keyframesRef st \<noteq> []" and "0 \<le> time (hd (keyframesRef st))"
  shows "(currentTime \<le> time (hd (keyframesRef st))
            \<longrightarrow> interpolateKeyframes st currentTime = keyframe_pose (hd (keyframesRef st)))
       \<and> ((length (keyframesRef st) = 1
             \<or> time (hd (keyframesRef st)) < time (last (keyframesRef st)))
           \<and> time (last (keyframesRef st)) \<le> dynamicDurationRef st
           \<and> time (last (keyframesRef st)) \<le> currentTime
            \<longrightarrow> interpolateKeyframes st currentTime = keyframe_pose (last (keyframesRef st)))"
proof (intro conjI impI)
  assume "currentTime \<le> time (hd (keyframesRef st))"
  then show "interpolateKeyframes st currentTime = keyframe_pose (hd (keyframesRef st))"
    using assms by (simp add: interpolateKeyframes_def Let_def)
next
  assume a: "(length (keyframesRef st) = 1
             \<or> time (hd (keyframesRef st)) < time (last (keyframesRef st)))
           \<and> time (last (keyframesRef st)) \<le> dynamicDurationRef st
           \<and> time (last (keyframesRef st)) \<le> currentTime"
  then have c: "time (last (keyframesRef st)) \<le> max 0 (min currentTime (dynamicDurationRef st))"
    by (simp add: le_max_iff_disj)
  from a have "length (keyframesRef st) = 1
             \<or> time (hd (keyframesRef st)) < time (last (keyframesRef st))"
    by simp
  then show "interpolateKeyframes st currentTime = keyframe_pose (last (keyframesRef st))"
  proof
    assume "length (keyframesRef st) = 1"
    then obtain k where "keyframesRef st = [k]"
      by (cases "keyframesRef st") auto
    then show ?thesis
      using c by (simp add: interpolateKeyframes_def Let_def)
  next
    assume "time (hd (keyframesRef st)) < time (last (keyframesRef st))"
    with c have "\<not> max 0 (min currentTime (dynamicDurationRef st))
        \<le> time (hd (keyframesRef st))"
      by linarith
    then show ?thesis
      using c assms(1) unfolding interpolateKeyframes_def Let_def by (simp only: if_False if_True list.size length_0_conv)
  qed
qed

theorem edge_queries_return_edge_keyframes_witness:
  "keyframesRef recording_rig \<noteq> [] \<and> 0 \<le> time (hd (keyframesRef recording_rig))
   \<and> - 1 \<le> time (hd (keyframesRef recording_rig))
   \<and> time (hd (keyframesRef recording_rig)) < time (last (keyframesRef recording_rig))
   \<and> time (last (keyframesRef recording_rig)) \<le> dynamicDurationRef recording_rig
   \<and> time (last (keyframesRef recording_rig)) \<le> 25
   \<and> interpolateKeyframes recording_rig (- 1) = keyframe_pose (hd (keyframesRef recording_rig))
   \<and> interpolateKeyframes recording_rig 25 = keyframe_pose (last (keyframesRef recording_rig))"
proof -
  have t: "map time (keyframesRef recording_rig) = [0, 3, 6, 9, 12, 15, 18, 20]"
    by (simp add: recording_rig_simps single_asset_times)
  then have ne: "keyframesRef recording_rig \<noteq> []"
    by auto
  have h: "time (hd (keyframesRef recording_rig)) = 0"
    using arg_cong[OF t, of hd] ne by (simp add: hd_map)
  have l: "time (last (keyframesRef recording_rig)) = 20"
    using arg_cong[OF t, of last] ne by (simp add: last_map)
  have d: "dynamicDurationRef recording_rig = 20"
    by (simp add: recording_rig_simps)
  have h0: "0 \<le> time (hd (keyframesRef recording_rig))"
    using h by simp
  show ?thesis
    using edge_queries_return_edge_keyframes [OF ne h0, of "- 1"]
      edge_queries_return_edge_keyframes [OF ne h0, of 25] ne h l d
    by simp
qed

text \<open>
  C6 as stated fails: the single-asset path always ends at 20 seconds, but the duration
  stored with it is the \<open>duration\<close> prop. With that prop at 10, a query at 30 seconds is
  clamped to 10 and blends the keyframes at 9 and 12 seconds (field of view \<open>910/27\<close>)
  instead of returning the last keyframe (field of view 55).
\<close>

theorem duration_clamp_counterexample:
  "dynamicDurationRef short_rig = 10
   \<and> time (last (keyframesRef short_rig)) = 20
   \<and> interpolateKeyframes short_rig 30 \<noteq> keyframe_pose (last (keyframesRef short_rig))"
proof -
  have f: "pose_fov (interpolateKeyframes short_rig 30) = 910 / 27"
    by (simp add: interpolateKeyframes_def short_rig_simps generateSingleAssetAnimation_def
        Let_def ease_def lerp_def fov_or_default_def)
  have g: "pose_fov (keyframe_pose (last (keyframesRef short_rig))) = 55"
    by (simp add: short_rig_simps generateSingleAssetAnimation_def Let_def keyframe_pose_def
        fov_or_default_def)
  have "interpolateKeyframes short_rig 30 \<noteq> keyframe_pose (last (keyframesRef short_rig))"
  proof
    assume "interpolateKeyframes short_rig 30 = keyframe_pose (last (keyframesRef short_rig))"
    then have "pose_fov (interpolateKeyframes short_rig 30)
        = pose_fov (keyframe_pose (last (keyframesRef short_rig)))"
      by simp
    with f g show False by simp
  qed
  moreover have "time (last (keyframesRef short_rig)) = 20"
    by (simp add: short_rig_simps generateSingleAssetAnimation_def Let_def)
  ultimately show ?thesis
    by (simp add: short_rig_simps)
qed

section \<open>The time base of the driver\<close>

text \<open>The query time of a call of \<open>useFrame\<close> while recording, and what the call keeps.\<close>

lemma frameTime_latched:
  assumes "isRecordingRef st" "animationStartTimeRef st = Some s"
  shows "frameTime c st = (c - s, st)"
  using assms by (simp add: frameTime_def)

lemma frameTime_first:
  assumes "isRecordingRef st" "animationStartTimeRef st = None"
  shows "frameTime c st = (0, st\<lparr>animationStartTimeRef := Some c\<rparr>)"
  using assms by (simp add: frameTime_def)

lemma useFrame_recording:
  assumes "enabled props" "isRecordingRef st"
  shows "isRecordingRef (useFrame props c st)"
    and "animationStartTimeRef (useFrame props c st)
         = Some (case animationStartTimeRef st of None \<Rightarrow> c | Some s \<Rightarrow> s)"
  using assms
  by (auto simp: useFrame_def frameTime_def Let_def split: option.splits)

lemma query_times_latched:
  assumes "enabled props" "isRecordingRef st" "animationStartTimeRef st = Some s"
  shows "query_times props cs st = map (\<lambda>c. c - s) cs"
  using assms
proof (induction cs arbitrary: st)
  case Nil
  then show ?case by simp
next
  case (Cons c cs)
  have "query_times props cs (useFrame props c st) = map (\<lambda>c. c - s) cs"
    using Cons.prems useFrame_recording[of props st c]
    by (intro Cons.IH) simp_all
  then show ?case
    using Cons.prems by (simp add: frameTime_latched)
qed

lemma query_times_first:
  assumes "enabled props" "isRecordingRef st" "animationStartTimeRef st = None"
  shows "query_times props (c # cs) st = map (\<lambda>ck. ck - c) (c # cs)"
proof -
  have "query_times props cs (useFrame props c st) = map (\<lambda>ck. ck - c) cs"
    using assms useFrame_recording[of props st c]
    by (intro query_times_latched) simp_all
  then show ?thesis
    using assms by (simp add: frameTime_first)
qed

text \<open>
  C1 (as the code has it). While the driver is recording, the time at which each call of
  \<open>useFrame\<close> queries the interpolator is the reading of the render clock at that call
  minus the reading latched at the first call after \<open>startRecordingAnimation\<close>: 0 at
  the first call, and from then on the wall-clock time elapsed since it.
\<close>

theorem recording_elapsed_is_clock_difference:
  assumes "enabled props"
  shows "query_times props (c # cs) (startRecordingAnimation props baseAngle st)
         = map (\<lambda>ck. ck - c) (c # cs)"
  using assms by (intro query_times_first) (simp_all add: startRecordingAnimation_def Let_def)

theorem recording_elapsed_is_clock_difference_witness:
  "enabled one_asset_props
   \<and> query_times one_asset_props [2, 2 + 1 / 30, 2 + 2 / 30]
        (startRecordingAnimation one_asset_props 0 (initial_rig one_asset_props))
      = [0, 1 / 30, 2 / 30]"
  using recording_elapsed_is_clock_difference
    [of one_asset_props 2 "[2 + 1 / 30, 2 + 2 / 30]" 0 "initial_rig one_asset_props"]
  by (simp add: one_asset_props_def)

text \<open>
  C1 as stated fails: with two calls of \<open>useFrame\<close> a sixtieth of a second apart, the
  second query is at \<open>1/60\<close>, while the timestamp of the capture loop's frame 1 is
  \<open>1/30\<close>.
\<close>

theorem recording_elapsed_counterexample:
  "query_times one_asset_props [2, 2 + 1 / 60]
     (startRecordingAnimation one_asset_props 0 (initial_rig one_asset_props))
   = [0, 1 / 60]
   \<and> query_times one_asset_props [2, 2 + 1 / 60]
       (startRecordingAnimation one_asset_props 0 (initial_rig one_asset_props))
     \<noteq> [timestampInSeconds 0, timestampInSeconds 1]"
proof -
  have "query_times one_asset_props [2, 2 + 1 / 60]
     (startRecordingAnimation one_asset_props 0 (initial_rig one_asset_props))
   = map (\<lambda>ck. ck - 2) [2, 2 + 1 / 60]"
    by (rule query_times_first)
      (simp_all add: startRecordingAnimation_def Let_def one_asset_props_def)
  then show ?thesis
    by (simp add: timestampInSeconds_def fps_def)
qed

section \<open>The capture loop\<close>

text \<open>The three ways one call of \<open>captureFrame\<close> continues or settles the promise.\<close>

lemma capture_loop_step:
  assumes "vc_isRecordingRef st" "real (frameCount st) < totalFrames st"
    "\<not> add_throws env (frameCount st)"
  shows "capture_loop env st =
     capture_loop env
       (st\<lparr>vc_outputRef :=
               map_option
                 (\<lambda>out. out\<lparr>out_frames := out_frames out
                     @ [(timestampInSeconds (frameCount st), durationInSeconds)]\<rparr>)
                 (vc_outputRef st),
            frameCount := frameCount st + 1\<rparr>)"
  using assms by (subst capture_loop.simps) (simp add: captureFrame_def)

lemma capture_loop_throw:
  assumes "vc_isRecordingRef st" "real (frameCount st) < totalFrames st"
    "add_throws env (frameCount st)"
  shows "capture_loop env st = (Inl EncoderError, st)"
  using assms by (subst capture_loop.simps) (simp add: captureFrame_def)

lemma capture_loop_finish:
  assumes "\<not> vc_isRecordingRef st \<or> totalFrames st \<le> real (frameCount st)"
  shows "capture_loop env st = finishRecording env st"
  using assms by (subst capture_loop.simps) (auto simp: captureFrame_def split: prod.splits)

lemma capture_loop_frames:
  assumes "vc_isRecordingRef st" "vc_outputRef st = Some out" "\<forall>i. \<not> add_throws env i"
  shows "capture_loop env st =
     finishRecording env
       (st\<lparr>vc_outputRef := Some (out\<lparr>out_frames := out_frames out
               @ map (\<lambda>k. (timestampInSeconds k, durationInSeconds))
                   [frameCount st ..< nat \<lceil>totalFrames st\<rceil>]\<rparr>),
           frameCount := max (frameCount st) (nat \<lceil>totalFrames st\<rceil>)\<rparr>)"
  using assms
proof (induction env st arbitrary: out rule: capture_loop.induct)
  case (1 env st)
  show ?case
  proof (cases "real (frameCount st) < totalFrames st")
    case False
    then have le: "nat \<lceil>totalFrames st\<rceil> \<le> frameCount st"
      by (simp add: not_less nat_le_iff ceiling_le_iff)
    have "capture_loop env st = finishRecording env st"
      using False by (simp add: capture_loop_finish)
    moreover have "st\<lparr>vc_outputRef := Some (out\<lparr>out_frames := out_frames out
               @ map (\<lambda>k. (timestampInSeconds k, durationInSeconds))
                   [frameCount st ..< nat \<lceil>totalFrames st\<rceil>]\<rparr>),
           frameCount := max (frameCount st) (nat \<lceil>totalFrames st\<rceil>)\<rparr> = st"
    proof -
      from le have m: "max (frameCount st) (nat \<lceil>totalFrames st\<rceil>) = frameCount st"
        and e: "[frameCount st ..< nat \<lceil>totalFrames st\<rceil>] = []"
        by simp_all
      show ?thesis
        unfolding m e using "1.prems"(2) by (cases st) simp
    qed
    ultimately show ?thesis by simp
  next
    case True
    then have lt: "frameCount st < nat \<lceil>totalFrames st\<rceil>"
      by (simp add: less_ceiling_iff zless_nat_eq_int_zless)
    let ?st' = "st\<lparr>vc_outputRef :=
               map_option
                 (\<lambda>out. out\<lparr>out_frames := out_frames out
                     @ [(timestampInSeconds (frameCount st), durationInSeconds)]\<rparr>)
                 (vc_outputRef st),
            frameCount := frameCount st + 1\<rparr>"
    have cf: "captureFrame env st = (None, ?st')"
      using True "1.prems" by (simp add: captureFrame_def)
    have step: "capture_loop env st = capture_loop env ?st'"
      using True "1.prems" by (simp add: capture_loop_step)
    have ih: "capture_loop env ?st' = finishRecording env
       (?st'\<lparr>vc_outputRef := Some ((out\<lparr>out_frames := out_frames out
                     @ [(timestampInSeconds (frameCount st), durationInSeconds)]\<rparr>)
               \<lparr>out_frames := out_frames (out\<lparr>out_frames := out_frames out
                     @ [(timestampInSeconds (frameCount st), durationInSeconds)]\<rparr>)
               @ map (\<lambda>k. (timestampInSeconds k, durationInSeconds))
                   [frameCount ?st' ..< nat \<lceil>totalFrames ?st'\<rceil>]\<rparr>),
           frameCount := max (frameCount ?st') (nat \<lceil>totalFrames ?st'\<rceil>)\<rparr>)"
      using "1.prems" by (intro "1.IH"[OF cf[symmetric] refl]) simp_all
    have up: "[frameCount st ..< nat \<lceil>totalFrames st\<rceil>]
        = frameCount st # [frameCount st + 1 ..< nat \<lceil>totalFrames st\<rceil>]"
      using lt by (simp add: upt_conv_Cons)
    show ?thesis
      unfolding step ih using lt by (simp add: up max_def)
  qed
qed

text \<open>Values of the rounding to a double.\<close>

lemma round_half_even_of_int: "round_half_even (of_int m) = m"
  by (simp add: round_half_even_def)

lemma to_double_value:
  assumes "x \<noteq> 0" and "\<lfloor>log 2 \<bar>x\<bar>\<rfloor> = k" and "- 1022 \<le> k"
    and "round_half_even (x / pow2 (k - 52)) = m"
  shows "to_double x = pow2 (k - 52) * of_int m"
proof -
  have u: "ulp_exponent x = k - 52"
    using assms(2,3) by (simp add: ulp_exponent_def)
  show ?thesis
    using assms(1,4) by (simp add: to_double_def u Let_def)
qed

lemma floor_log2_eq:
  assumes "2 powr real_of_int k \<le> \<bar>x\<bar>" "\<bar>x\<bar> < 2 powr (real_of_int k + 1)"
  shows "\<lfloor>log 2 \<bar>x\<bar>\<rfloor> = k"
proof -
  have "0 < \<bar>x\<bar>"
    using assms(1) by (smt (verit) powr_gt_zero)
  then show ?thesis
    using assms by (simp add: floor_log_eq_powr_iff)
qed

lemma to_double_of_nat:
  assumes "n < 2 ^ 53"
  shows "to_double (real n) = real n"
proof (cases "n = 0")
  case True
  then show ?thesis by (simp add: to_double_def)
next
  case False
  define k where "k = \<lfloor>log 2 \<bar>real n\<bar>\<rfloor>"
  have n1: "1 \<le> real n"
    using False by simp
  then have "0 \<le> log 2 (real n)"
    by simp
  then have k0: "0 \<le> k"
    by (simp add: k_def)
  have "real n < 2 ^ 53"
    using assms by (metis of_nat_less_iff of_nat_numeral of_nat_power)
  then have "log 2 (real n) < 53"
    using n1 by (simp add: log_less_iff)
  then have k52: "k \<le> 52"
    by (simp add: k_def floor_le_iff)
  define j where "j = nat (52 - k)"
  have p: "pow2 (k - 52) = 1 / 2 ^ j"
    using k52 by (cases "k = 52") (simp_all add: pow2_def j_def)
  have "real n / pow2 (k - 52) = of_int (int n * 2 ^ j)"
    by (simp add: p)
  then have r: "round_half_even (real n / pow2 (k - 52)) = int n * 2 ^ j"
    by (simp only: round_half_even_of_int)
  have "to_double (real n) = pow2 (k - 52) * of_int (int n * 2 ^ j)"
  proof (rule to_double_value[OF _ _ _ r])
    show "real n \<noteq> 0" using False by simp
    show "\<lfloor>log 2 \<bar>real n\<bar>\<rfloor> = k" by (simp add: k_def)
    show "- 1022 \<le> k" using k0 by simp
  qed
  then show ?thesis
    by (simp add: p)
qed

lemma to_double_45_4: "to_double (3 / 8 * fps) = 45 / 4"
proof -
  have k: "\<lfloor>log 2 \<bar>45 / 4 :: real\<bar>\<rfloor> = 3"
    by (rule floor_log2_eq) simp_all
  have r: "round_half_even (45 / 4 / pow2 (3 - 52)) = 45 * 2 ^ 47"
    by (simp add: round_half_even_def pow2_def)
  have "to_double (45 / 4) = 45 / 4"
    using to_double_value[OF _ k _ r] by (simp add: pow2_def)
  then show ?thesis
    by (simp add: fps_def)
qed

lemma to_double_8_3: "to_double (double_8_3 * fps) = 8760908650119169 / 2 ^ 45"
proof -
  have k: "\<lfloor>log 2 \<bar>4672484613396890 / 2 ^ 49 * 30 :: real\<bar>\<rfloor> = 7"
    by (rule floor_log2_eq) simp_all
  have r: "round_half_even (4672484613396890 / 2 ^ 49 * 30 / pow2 (7 - 52))
      = 8760908650119169"
    by (simp add: round_half_even_def pow2_def)
  have "to_double (4672484613396890 / 2 ^ 49 * 30) = 8760908650119169 / 2 ^ 45"
    using to_double_value[OF _ k _ r] by (simp add: pow2_def)
  then show ?thesis
    by (simp add: fps_def double_8_3_def)
qed

lemma to_double_0_1: "to_double (double_0_1 * fps) = 3"
proof -
  have k: "\<lfloor>log 2 \<bar>3602879701896397 / 2 ^ 55 * 30 :: real\<bar>\<rfloor> = 1"
    by (rule floor_log2_eq) simp_all
  have r: "round_half_even (3602879701896397 / 2 ^ 55 * 30 / pow2 (1 - 52))
      = 6755399441055744"
    by (simp add: round_half_even_def pow2_def)
  have "to_double (3602879701896397 / 2 ^ 55 * 30) = 3"
    using to_double_value[OF _ k _ r] by (simp add: pow2_def)
  then show ?thesis
    by (simp add: fps_def double_0_1_def)
qed

text \<open>With an encoder of which no call throws, a capture resolves with its frames.\<close>

lemma startRecording_frames:
  assumes "\<not> vc_isRecordingRef st" "\<not> start_throws env" "\<forall>i. \<not> add_throws env i"
    "\<not> finalize_throws env" "\<not> buffer_missing env"
  shows "fst (startRecording env d st) = Inr (frame_tags (nat \<lceil>to_double (d * fps)\<rceil>))"
proof -
  let ?st2 = "st\<lparr>vc_isRecordingRef := True,
                 vc_outputRef := Some \<lparr>out_started = False, out_frames = []\<rparr>,
                 vc_videoSourceRef := True,
                 vc_outputRef := Some \<lparr>out_started = True, out_frames = []\<rparr>,
                 totalFrames := to_double (d * fps), frameCount := 0\<rparr>"
  have s: "startRecording env d st = capture_loop env ?st2"
    using assms(1,2) by (simp add: startRecording_def Let_def)
  have "capture_loop env ?st2 = finishRecording env
       (?st2\<lparr>vc_outputRef := Some (\<lparr>out_started = True, out_frames = []\<rparr>\<lparr>out_frames :=
               out_frames \<lparr>out_started = True, out_frames = []\<rparr>
               @ map (\<lambda>k. (timestampInSeconds k, durationInSeconds))
                   [frameCount ?st2 ..< nat \<lceil>totalFrames ?st2\<rceil>]\<rparr>),
           frameCount := max (frameCount ?st2) (nat \<lceil>totalFrames ?st2\<rceil>)\<rparr>)"
    using assms(3) by (intro capture_loop_frames) simp_all
  then show ?thesis
    using assms(4,5) by (simp add: s finishRecording_def frame_tags_def)
qed

text \<open>
  The captures of \<open>8.3\<close> and of \<open>0.1\<close> seconds: the double product of \<open>8.3\<close> and 30 lies
  above 249 and gives 250 frames; that of \<open>0.1\<close> and 30 is 3 and gives 3 frames.
\<close>

lemma capture_of_8_3_seconds:
  "fst (startRecording reliable_encoder double_8_3 idle_capture) = Inr (frame_tags 250)"
proof -
  have c: "nat \<lceil>to_double (double_8_3 * fps)\<rceil> = 250"
    unfolding to_double_8_3 by (simp add: ceiling_eq_iff)
  have "fst (startRecording reliable_encoder double_8_3 idle_capture)
      = Inr (frame_tags (nat \<lceil>to_double (double_8_3 * fps)\<rceil>))"
    by (rule startRecording_frames) (simp_all add: idle_capture_def reliable_encoder_def)
  then show ?thesis
    unfolding c .
qed

lemma capture_of_0_1_seconds:
  "fst (startRecording reliable_encoder double_0_1 idle_capture) = Inr (frame_tags 3)"
proof -
  have c: "nat \<lceil>to_double (double_0_1 * fps)\<rceil> = 3"
    unfolding to_double_0_1 by simp
  have "fst (startRecording reliable_encoder double_0_1 idle_capture)
      = Inr (frame_tags (nat \<lceil>to_double (double_0_1 * fps)\<rceil>))"
    by (rule startRecording_frames) (simp_all add: idle_capture_def reliable_encoder_def)
  then show ?thesis
    unfolding c .
qed

text \<open>
  C2 (as the code has it). For every capture of target duration \<open>d\<close> with
  \<open>d * 30 < 2 ^ 53\<close>, started while no capture is in progress and with an encoder of which
  no call throws, the capture loop submits exactly \<open>\<lceil>T\<rceil>\<close> frames to the video sink (none
  when \<open>T \<le> 0\<close>), where \<open>T\<close> is the double that \<open>duration * 30\<close> evaluates to; frame
  \<open>k\<close> is tagged with timestamp \<open>k / 30\<close> and duration \<open>1 / 30\<close>, in increasing order
  of \<open>k\<close>; the promise resolves with these frames, so the loop does not stop before that
  count. For a whole number \<open>n\<close> of seconds the count is \<open>30 * n\<close>.
\<close>

theorem capture_emits_ceiling_frames:
  assumes "\<not> vc_isRecordingRef st" "\<not> start_throws env" "\<forall>i. \<not> add_throws env i"
    "\<not> finalize_throws env" "\<not> buffer_missing env" "d * 30 < 2 ^ 53"
  shows "fst (startRecording env d st) = Inr (frame_tags (nat \<lceil>to_double (d * 30)\<rceil>))
    \<and> length (frame_tags (nat \<lceil>to_double (d * 30)\<rceil>)) = nat \<lceil>to_double (d * 30)\<rceil>
    \<and> frame_tags (nat \<lceil>to_double (d * 30)\<rceil>)
        = map (\<lambda>k. (real k / 30, 1 / 30)) [0 ..< nat \<lceil>to_double (d * 30)\<rceil>]
    \<and> (d = real n \<longrightarrow> nat \<lceil>to_double (d * 30)\<rceil> = 30 * n)"
proof -
  have whole: "nat \<lceil>to_double (d * 30)\<rceil> = 30 * n" if "d = real n"
  proof -
    have "real (30 * n) < 2 ^ 53"
      using assms(6) that by (simp add: mult.commute)
    then have "30 * n < 2 ^ 53"
      by (metis of_nat_less_iff of_nat_numeral of_nat_power)
    then have "to_double (real (30 * n)) = real (30 * n)"
      by (rule to_double_of_nat)
    moreover have "d * 30 = real (30 * n)"
      using that by simp
    ultimately have "to_double (d * 30) = real (30 * n)"
      by (simp only:)
    then show ?thesis
      by (simp only: ceiling_of_nat nat_int)
  qed
  have "fst (startRecording env d st) = Inr (frame_tags (nat \<lceil>to_double (d * fps)\<rceil>))"
    using assms(1-5) by (rule startRecording_frames)
  then show ?thesis
    using whole
    by (simp add: fps_def frame_tags_def timestampInSeconds_def durationInSeconds_def)
qed

theorem capture_emits_ceiling_frames_witness:
  "\<not> vc_isRecordingRef idle_capture \<and> \<not> start_throws reliable_encoder
   \<and> \<not> finalize_throws reliable_encoder
   \<and> \<not> buffer_missing reliable_encoder
   \<and> (20 :: real) * 30 < 2 ^ 53
   \<and> (20 :: real) = real (20 :: nat)
   \<and> fst (startRecording reliable_encoder 20 idle_capture) = Inr (frame_tags 600)"
  using capture_emits_ceiling_frames [of idle_capture reliable_encoder 20 20]
  by (simp add: idle_capture_def reliable_encoder_def)

text \<open>
  C2 as stated fails: for the duration \<open>3/8\<close> the product \<open>d * 30\<close> is \<open>11.25\<close>, which
  is a double, the loop runs while \<open>frameCount < 11.25\<close> and submits 12 frames, while
  \<open>round(11.25)\<close> is 11.
\<close>

theorem capture_round_counterexample:
  "fst (startRecording reliable_encoder (3 / 8) idle_capture) = Inr (frame_tags 12)
   \<and> fst (startRecording reliable_encoder (3 / 8) idle_capture)
       \<noteq> Inr (frame_tags (nat (round (3 / 8 * 30 :: real))))"
proof -
  have c: "nat \<lceil>to_double (3 / 8 * fps)\<rceil> = 12"
    unfolding to_double_45_4 by (simp add: ceiling_eq_iff)
  have r: "nat (round (3 / 8 * 30 :: real)) = 11"
    by (simp add: round_def floor_eq_iff)
  have "fst (startRecording reliable_encoder (3 / 8) idle_capture)
      = Inr (frame_tags (nat \<lceil>to_double (3 / 8 * fps)\<rceil>))"
    by (rule startRecording_frames) (simp_all add: idle_capture_def reliable_encoder_def)
  then have f: "fst (startRecording reliable_encoder (3 / 8) idle_capture) = Inr (frame_tags 12)"
    unfolding c .
  have "length (frame_tags 12) \<noteq> length (frame_tags 11)"
    by (simp add: frame_tags_def)
  then have "frame_tags 12 \<noteq> frame_tags 11"
    by metis
  with f r show ?thesis by simp
qed

text \<open>
  C7. If a capture is already in progress, starting a second capture fails immediately
  with the error \<open>Already recording\<close>, and the state of the running capture (recording
  flag, output, frame counter) is left unchanged.
\<close>

theorem second_start_rejected:
  assumes "vc_isRecordingRef st"
  shows "startRecording env dur st = (Inl AlreadyRecording, st)"
  using assms by (simp add: startRecording_def)

theorem second_start_rejected_witness:
  "vc_isRecordingRef running_capture
   \<and> startRecording reliable_encoder 5 running_capture = (Inl AlreadyRecording, running_capture)"
  using second_start_rejected [of running_capture reliable_encoder 5]
  by (simp add: running_capture_def)

text \<open>
  C8. The claim is that an error while submitting a frame propagates to the caller, that
  no partial file is returned, and that the capture state reverts to idle so that a new
  capture can be started. Evaluated with an encoder whose third \<open>add\<close> throws: the
  promise is rejected with the error, but the recording flag stays set and the output with
  its two frames stays in \<open>outputRef\<close>, and the next \<open>startRecording\<close> is rejected with
  \<open>Already recording\<close>.
\<close>

theorem frame_error_leaves_recording:
  "startRecording failing_encoder 1 idle_capture =
     (Inl EncoderError,
      \<lparr>vc_isRecordingRef = True,
       vc_outputRef = Some \<lparr>out_started = True, out_frames = frame_tags 2\<rparr>,
       vc_videoSourceRef = True, totalFrames = 30, frameCount = 2\<rparr>)
   \<and> fst (startRecording reliable_encoder 1
            (snd (startRecording failing_encoder 1 idle_capture))) = Inl AlreadyRecording"
proof -
  have f2: "frame_tags 2 = [(timestampInSeconds 0, durationInSeconds),
                            (timestampInSeconds 1, durationInSeconds)]"
    by (simp add: frame_tags_def numeral_2_eq_2)
  have a: "startRecording failing_encoder 1 idle_capture =
     (Inl EncoderError,
      \<lparr>vc_isRecordingRef = True,
       vc_outputRef = Some \<lparr>out_started = True, out_frames = frame_tags 2\<rparr>,
       vc_videoSourceRef = True, totalFrames = 30, frameCount = 2\<rparr>)"
    using to_double_of_nat [of 30]
    by (simp add: startRecording_def idle_capture_def failing_encoder_def fps_def f2
        capture_loop_step capture_loop_throw)
  show ?thesis
    unfolding a by (simp add: startRecording_def)
qed

end
